theory Spec2Isabelle
  imports Main "HOL-Library.Word"
begin

unbundle bit_operations_syntax

section \<open>Chunked AEAD encryption (pkg/encryption/encryption.go)\<close>

text \<open>
  Bytes are 8-bit words, files and buffers are byte lists. The cryptographic library
  calls of the source are parameters of the model: \<open>pbkdf2.Key\<close> (with the fixed
  iteration count, key size and hash) and the AES-GCM object built by
  \<open>aes.NewCipher\<close> and \<open>cipher.NewGCM\<close>, whose \<open>Seal\<close> and \<open>Open\<close> are called with a
  nil destination and nil associated data. The random salt and the random nonce of
  \<open>EncryptFile\<close> are inputs of the model. Opening and creating the files, and write
  errors, are outside the model: a file is its contents.
\<close>

type_synonym byte = "8 word"

record gcm =
  gcm_Seal :: "byte list \<Rightarrow> byte list \<Rightarrow> byte list"
  gcm_Open :: "byte list \<Rightarrow> byte list \<Rightarrow> byte list option"

record crypto_lib =
  pbkdf2_Key :: "string \<Rightarrow> byte list \<Rightarrow> byte list"
  NewGCM :: "byte list \<Rightarrow> gcm"

definition SaltSize :: nat where
  "SaltSize = 32"

definition NonceSize :: nat where
  "NonceSize = 12"

text \<open>
  \<open>incrementNonce\<close>: the loop runs from the last index down to index 0, adds one to the
  byte (wrapping at 256) and stops at the first byte that did not wrap to zero.
\<close>

fun incrementNonce_loop :: "nat \<Rightarrow> byte list \<Rightarrow> byte list" where
  "incrementNonce_loop 0 nonce = nonce[0 := nonce ! 0 + 1]"
| "incrementNonce_loop (Suc i) nonce =
     (let nonce' = nonce[Suc i := nonce ! Suc i + 1]
      in if nonce' ! Suc i \<noteq> 0 then nonce' else incrementNonce_loop i nonce')"

definition incrementNonce :: "byte list \<Rightarrow> byte list" where
  "incrementNonce nonce =
     (if nonce = [] then nonce else incrementNonce_loop (length nonce - 1) nonce)"

text \<open>The four length bytes written before each encrypted chunk, most significant first.\<close>

definition chunkSizeBytes :: "nat \<Rightarrow> byte list" where
  "chunkSizeBytes n =
     [of_nat (drop_bit 24 n), of_nat (drop_bit 16 n), of_nat (drop_bit 8 n), of_nat n]"

text \<open>The chunk size read back by \<open>DecryptFile\<close> from four bytes.\<close>

definition chunkSizeOf :: "byte list \<Rightarrow> nat" where
  "chunkSizeOf bs =
     push_bit 24 (unat (bs ! 0)) OR push_bit 16 (unat (bs ! 1)) OR
     push_bit 8 (unat (bs ! 2)) OR unat (bs ! 3)"

text \<open>
  The chunk loop of \<open>EncryptFile\<close>: \<open>Read\<close> fills the 4096-byte buffer from the rest of
  the input and the loop ends when it returns no byte.
\<close>

fun encrypt_chunks :: "gcm \<Rightarrow> byte list \<Rightarrow> byte list \<Rightarrow> byte list" where
  "encrypt_chunks g nonce inp =
     (if inp = [] then []
      else let encrypted = gcm_Seal g nonce (take 4096 inp)
           in chunkSizeBytes (length encrypted) @ encrypted @
              encrypt_chunks g (incrementNonce nonce) (drop 4096 inp))"

definition EncryptFile ::
  "crypto_lib \<Rightarrow> string \<Rightarrow> byte list \<Rightarrow> byte list \<Rightarrow> byte list \<Rightarrow> byte list" where
  "EncryptFile lib password salt nonce inp =
     (let key = pbkdf2_Key lib password salt;
          g = NewGCM lib key
      in salt @ nonce @ encrypt_chunks g nonce inp)"

datatype crypt_error =
  ReadSaltFailed | ReadNonceFailed | ReadChunkSizeFailed | ReadChunkFailed
  | DecryptChunkFailed

text \<open>
  The chunk loop of \<open>DecryptFile\<close>. \<open>io.ReadFull\<close> of the four length bytes returns
  \<open>io.EOF\<close> with no byte read at the end of the input (the loop ends), and
  \<open>io.ErrUnexpectedEOF\<close> after one to three bytes. The result is the error, if any,
  and the bytes written to the output file up to that point.
\<close>

fun decrypt_chunks ::
  "gcm \<Rightarrow> byte list \<Rightarrow> byte list \<Rightarrow> byte list \<Rightarrow> crypt_error option \<times> byte list" where
  "decrypt_chunks g nonce inp out =
     (if inp = [] then (None, out)
      else if length inp < 4 then (Some ReadChunkSizeFailed, out)
      else let chunkSize = chunkSizeOf (take 4 inp); rest = drop 4 inp
           in if length rest < chunkSize then (Some ReadChunkFailed, out)
              else case gcm_Open g nonce (take chunkSize rest) of
                     None \<Rightarrow> (Some DecryptChunkFailed, out)
                   | Some decrypted \<Rightarrow>
                       decrypt_chunks g (incrementNonce nonce) (drop chunkSize rest)
                         (out @ decrypted))"

definition DecryptFile ::
  "crypto_lib \<Rightarrow> string \<Rightarrow> byte list \<Rightarrow> crypt_error option \<times> byte list" where
  "DecryptFile lib password inp =
     (if length inp < SaltSize then (Some ReadSaltFailed, [])
      else let salt = take SaltSize inp;
               key = pbkdf2_Key lib password salt;
               g = NewGCM lib key;
               rest = drop SaltSize inp
           in if length rest < NonceSize then (Some ReadNonceFailed, [])
              else decrypt_chunks g (take NonceSize rest) (drop NonceSize rest) [])"


text \<open>
  Auxiliary notions for stating the properties of the container: the value of a byte
  string read as a big-endian number, the framed chunk written for one window, and the
  list of framed chunks of a container (their concatenation is what the chunk loop of
  \<open>EncryptFile\<close> writes).
\<close>

definition be_val :: "byte list \<Rightarrow> nat" where
  "be_val bs = foldl (\<lambda>acc b. acc * 256 + unat b) 0 bs"

definition sealed_frame :: "gcm \<Rightarrow> byte list \<Rightarrow> byte list \<Rightarrow> byte list" where
  "sealed_frame g nonce chunk =
     chunkSizeBytes (length (gcm_Seal g nonce chunk)) @ gcm_Seal g nonce chunk"

fun encrypt_frames :: "gcm \<Rightarrow> byte list \<Rightarrow> byte list \<Rightarrow> byte list list" where
  "encrypt_frames g nonce inp =
     (if inp = [] then []
      else sealed_frame g nonce (take 4096 inp) #
           encrypt_frames g (incrementNonce nonce) (drop 4096 inp))"

definition chunk_count :: "byte list \<Rightarrow> nat" where
  "chunk_count inp = (length inp + 4095) div 4096"


section \<open>Compression (pkg/compression/compressor.go)\<close>

text \<open>
  The three implementations of the \<open>Compressor\<close> interface are the constructors of a
  datatype; the gzip and zlib codecs of the standard library are parameters. A library
  writer on a memory buffer does not fail once it is created; \<open>NewWriterLevel\<close> rejects
  a level outside \<open>-2 .. 9\<close>. A library reader fails either when it is created (bad
  header) or while it is read (bad data).
\<close>

datatype Compressor = GzipCompressor int | ZlibCompressor int | NoOpCompressor

datatype decode_result = HeaderError | DataError | Decoded "byte list"

record codec_lib =
  gzip_encode :: "int \<Rightarrow> byte list \<Rightarrow> byte list"
  gzip_decode :: "byte list \<Rightarrow> decode_result"
  zlib_encode :: "int \<Rightarrow> byte list \<Rightarrow> byte list"
  zlib_decode :: "byte list \<Rightarrow> decode_result"

datatype compress_error =
  UnsupportedFormat | CreateWriterFailed | CreateReaderFailed | ReadDataFailed

definition DefaultCompression :: int where
  "DefaultCompression = -1"

definition BestCompression :: int where
  "BestCompression = 9"

definition HuffmanOnly :: int where
  "HuffmanOnly = -2"

definition NewCompressor :: "string \<Rightarrow> int \<Rightarrow> compress_error + Compressor" where
  "NewCompressor format level =
     (if format = ''gzip'' then
        Inr (GzipCompressor
          (if level < DefaultCompression \<or> level > BestCompression
           then DefaultCompression else level))
      else if format = ''zlib'' then
        Inr (ZlibCompressor
          (if level < DefaultCompression \<or> level > BestCompression
           then DefaultCompression else level))
      else if format = ''none'' \<or> format = '''' then Inr NoOpCompressor
      else Inl UnsupportedFormat)"

fun Compress :: "codec_lib \<Rightarrow> Compressor \<Rightarrow> byte list \<Rightarrow> compress_error + byte list" where
  "Compress lib (GzipCompressor level) data =
     (if level < HuffmanOnly \<or> level > BestCompression then Inl CreateWriterFailed
      else Inr (gzip_encode lib level data))"
| "Compress lib (ZlibCompressor level) data =
     (if level < HuffmanOnly \<or> level > BestCompression then Inl CreateWriterFailed
      else Inr (zlib_encode lib level data))"
| "Compress lib NoOpCompressor data = Inr data"

fun reader_result :: "decode_result \<Rightarrow> compress_error + byte list" where
  "reader_result HeaderError = Inl CreateReaderFailed"
| "reader_result DataError = Inl ReadDataFailed"
| "reader_result (Decoded decompressed) = Inr decompressed"

fun Decompress :: "codec_lib \<Rightarrow> Compressor \<Rightarrow> byte list \<Rightarrow> compress_error + byte list" where
  "Decompress lib (GzipCompressor level) data = reader_result (gzip_decode lib data)"
| "Decompress lib (ZlibCompressor level) data = reader_result (zlib_decode lib data)"
| "Decompress lib NoOpCompressor data = Inr data"


section \<open>The backup service (internal/backup: Service)\<close>

text \<open>
  The service is a record of the fields the operations read and write; every operation
  returns the updated record. The world outside the process is a record as well: the
  files on disk, SHA-256 with hex encoding, the upload call of the API client (its result
  is an error message or the remote file id), the clock, and the compression codecs.
  \<open>os.Stat\<close>, \<open>os.Open\<close> and reading a file succeed exactly when the file is present.
  The report collector is the list of the results added to it. The database, when there
  is one, holds the file states and the backup records; an insert that violates the
  uniqueness of (file path, checksum) fails, and the source logs and ignores the failure.
  Times are natural numbers. Go's \<open>int\<close> and \<open>int64\<close> are modelled by \<open>int\<close>: no
  counter or size of this code comes near \<open>2 ^ 63\<close>.
\<close>

record FileChange =
  fc_Path :: string
  fc_Operation :: string
  fc_Timestamp :: nat
  fc_Size :: int
  fc_IsDir :: bool

record BackupTask =
  task_FilePath :: string
  task_Operation :: string
  task_Timestamp :: nat
  task_Size :: int
  task_IsDir :: bool

record FileBackupState =
  LastBackup :: nat
  LastChecksum :: string
  BackupCount :: int
  Status :: string

datatype backup_error =
  ChecksumFailed | OpenFailed | CompressFailed compress_error | UploadFailed string

record BackupResult =
  res_FilePath :: string
  res_FileID :: string
  res_Operation :: string
  res_Success :: bool
  res_Error :: "backup_error option"
  res_StartTime :: nat
  res_EndTime :: nat
  res_Size :: int
  res_CompressedSize :: int
  res_Checksum :: string
  res_Compressed :: bool

record BackupRecord =
  rec_FilePath :: string
  rec_FileID :: string
  rec_Checksum :: string
  rec_OriginalSize :: int
  rec_CompressedSize :: int
  rec_IsCompressed :: bool
  rec_BackupTime :: nat
  rec_Status :: string
  rec_Operation :: string

record DB =
  file_states :: "string \<rightharpoonup> FileBackupState"
  backup_records :: "BackupRecord list"

record Service =
  maxFileSize :: int
  backupQueue :: "BackupTask list"
  backupState :: "string \<rightharpoonup> FileBackupState"
  compressor :: Compressor
  compression :: bool
  reporter :: "BackupResult list"
  db :: "DB option"

record world =
  files :: "string \<rightharpoonup> byte list"
  sha256_hex :: "byte list \<Rightarrow> string"
  UploadFile :: "string \<Rightarrow> byte list \<Rightarrow> int \<Rightarrow> string \<Rightarrow> string + string"
  now :: nat
  codecs :: codec_lib

definition queue_capacity :: nat where
  "queue_capacity = 1000"

definition UpdateFileState :: "string \<Rightarrow> FileBackupState \<Rightarrow> DB \<Rightarrow> DB" where
  "UpdateFileState filePath state d = d\<lparr>file_states := (file_states d)(filePath \<mapsto> state)\<rparr>"

definition InsertBackupRecord :: "BackupRecord \<Rightarrow> DB \<Rightarrow> DB" where
  "InsertBackupRecord r d =
     (if (rec_FilePath r, rec_Checksum r) \<in>
           set (map (\<lambda>r'. (rec_FilePath r', rec_Checksum r')) (backup_records d))
      then d
      else d\<lparr>backup_records := backup_records d @ [r]\<rparr>)"

definition AddResult :: "BackupResult \<Rightarrow> Service \<Rightarrow> Service" where
  "AddResult result s = s\<lparr>reporter := reporter s @ [result]\<rparr>"

definition needsBackup :: "Service \<Rightarrow> world \<Rightarrow> string \<Rightarrow> string \<Rightarrow> bool" where
  "needsBackup s w filePath operation =
     (if operation = ''create'' \<or> operation = ''modify'' then True
      else if files w filePath = None then False
      else case backupState s filePath of
             None \<Rightarrow> True
           | Some state \<Rightarrow> if Status state = ''failed'' then True else False)"

definition ProcessChange :: "Service \<Rightarrow> world \<Rightarrow> FileChange \<Rightarrow> Service" where
  "ProcessChange s w change =
     (if fc_IsDir change then s
      else if fc_Size change > maxFileSize s then s
      else if \<not> needsBackup s w (fc_Path change) (fc_Operation change) then s
      else let task = \<lparr>task_FilePath = fc_Path change,
                        task_Operation = fc_Operation change,
                        task_Timestamp = fc_Timestamp change,
                        task_Size = fc_Size change,
                        task_IsDir = fc_IsDir change\<rparr>
           in if length (backupQueue s) < queue_capacity
              then s\<lparr>backupQueue := backupQueue s @ [task]\<rparr>
              else s)"

definition calculateChecksum :: "world \<Rightarrow> string \<Rightarrow> backup_error + string" where
  "calculateChecksum w filePath =
     (case files w filePath of
        None \<Rightarrow> Inl ChecksumFailed
      | Some content \<Rightarrow> Inr (sha256_hex w content))"

definition updateBackupState ::
  "Service \<Rightarrow> world \<Rightarrow> string \<Rightarrow> string \<Rightarrow> string \<Rightarrow> Service" where
  "updateBackupState s w filePath status checksum =
     (let state0 = (case backupState s filePath of
                      None \<Rightarrow> \<lparr>LastBackup = 0, LastChecksum = '''', BackupCount = 0,
                               Status = ''''\<rparr>
                    | Some state \<Rightarrow> state);
          state1 = state0\<lparr>Status := status, LastBackup := now w\<rparr>;
          state2 = (if checksum \<noteq> '''' then state1\<lparr>LastChecksum := checksum\<rparr>
                    else state1);
          state3 = (if status = ''success''
                    then state2\<lparr>BackupCount := BackupCount state2 + 1\<rparr> else state2)
      in s\<lparr>backupState := (backupState s)(filePath \<mapsto> state3),
            db := map_option (UpdateFileState filePath state3) (db s)\<rparr>)"

definition processBackup :: "Service \<Rightarrow> world \<Rightarrow> BackupTask \<Rightarrow> Service" where
  "processBackup s w task =
     (let result = \<lparr>res_FilePath = task_FilePath task, res_FileID = '''',
                     res_Operation = task_Operation task, res_Success = False,
                     res_Error = None, res_StartTime = now w, res_EndTime = 0,
                     res_Size = task_Size task, res_CompressedSize = 0,
                     res_Checksum = '''', res_Compressed = compression s\<rparr>
      in if task_Operation task = ''delete'' then
           AddResult (result\<lparr>res_Success := True, res_EndTime := now w\<rparr>)
             (updateBackupState s w (task_FilePath task) ''deleted'' '''')
         else case calculateChecksum w (task_FilePath task) of
           Inl e \<Rightarrow> AddResult (result\<lparr>res_Error := Some e, res_EndTime := now w\<rparr>) s
         | Inr checksum \<Rightarrow>
             let result = result\<lparr>res_Checksum := checksum\<rparr>
             in if (case backupState s (task_FilePath task) of
                      None \<Rightarrow> False
                    | Some state \<Rightarrow> LastChecksum state = checksum)
                then s
                else case files w (task_FilePath task) of
                  None \<Rightarrow>
                    AddResult (result\<lparr>res_Error := Some OpenFailed, res_EndTime := now w\<rparr>) s
                | Some content \<Rightarrow>
                    (case (if compression s
                           then map_sum id (\<lambda>compressedData.
                                  (compressedData, int (length compressedData),
                                   result\<lparr>res_CompressedSize :=
                                            int (length compressedData)\<rparr>))
                                  (Compress (codecs w) (compressor s) content)
                           else Inr (content, task_Size task, result)) of
                       Inl e \<Rightarrow>
                         AddResult (result\<lparr>res_Error := Some (CompressFailed e),
                                            res_EndTime := now w\<rparr>) s
                     | Inr (uploadData, uploadSize, result) \<Rightarrow>
                         (case UploadFile w (task_FilePath task) uploadData uploadSize
                                 checksum of
                            Inl e \<Rightarrow>
                              AddResult (result\<lparr>res_Error := Some (UploadFailed e),
                                                 res_EndTime := now w\<rparr>)
                                (updateBackupState s w (task_FilePath task) ''failed''
                                   checksum)
                          | Inr fileID \<Rightarrow>
                              (let result = result\<lparr>res_FileID := fileID,
                                                   res_Success := True,
                                                   res_EndTime := now w\<rparr>;
                                   s1 = AddResult result
                                          (updateBackupState s w (task_FilePath task)
                                             ''success'' checksum)
                               in s1\<lparr>db := map_option (InsertBackupRecord
                                      \<lparr>rec_FilePath = task_FilePath task,
                                       rec_FileID = fileID,
                                       rec_Checksum = checksum,
                                       rec_OriginalSize = task_Size task,
                                       rec_CompressedSize = uploadSize,
                                       rec_IsCompressed = compression s,
                                       rec_BackupTime = now w,
                                       rec_Status = ''success'',
                                       rec_Operation = task_Operation task\<rparr>)
                                      (db s1)\<rparr>))))"


section \<open>The restore service (internal/backup: RestoreService)\<close>

text \<open>
  The disk is a map from paths to directories and files; a file has its bytes and its
  mode. The service carries its progress record, the disk, and the list of the file ids
  for which the download of the API client was called. The world gives the path
  functions of the standard library (\<open>filepath.Base\<close>, \<open>filepath.Join\<close>,
  \<open>filepath.Dir\<close>), the result of a download (an error message, or the bytes read from
  the response), and whether creating a directory or writing a file fails. Writing an
  existing file replaces its bytes and keeps its mode.
\<close>

datatype node = Directory | RegularFile "byte list" nat

record FileManifestEntry =
  me_FilePath :: string
  me_FileID :: string
  me_Size :: int
  me_Checksum :: string
  me_BackupTime :: nat
  me_Permissions :: nat
  me_Compressed :: bool

record RestoreError =
  re_FilePath :: string
  re_FileID :: string
  re_Error :: string
  re_Time :: nat

record RestoreProgress =
  TotalFiles :: int
  RestoredFiles :: int
  FailedFiles :: int
  TotalSize :: int
  RestoredSize :: int
  StartTime :: nat
  Errors :: "RestoreError list"

record RestoreService =
  progress :: RestoreProgress
  disk :: "string \<rightharpoonup> node"
  download_calls :: "string list"

record restore_world =
  Base :: "string \<Rightarrow> string"
  Join :: "string \<Rightarrow> string \<Rightarrow> string"
  Dir :: "string \<Rightarrow> string"
  DownloadFile_result :: "string \<Rightarrow> string + byte list"
  MkdirAll_error :: "string \<Rightarrow> string option"
  WriteFile_error :: "string \<Rightarrow> string option"
  time_now :: nat

text \<open>
  \<open>calculateFileChecksum\<close> returns the empty string and no error for every path: its
  body is the comment "This would calculate SHA256 checksum".
\<close>

definition calculateFileChecksum :: "string \<Rightarrow> string" where
  "calculateFileChecksum path = ''''"

definition fileExists :: "(string \<rightharpoonup> node) \<Rightarrow> string \<Rightarrow> string \<Rightarrow> bool" where
  "fileExists d path checksum =
     (case d path of
        None \<Rightarrow> False
      | Some Directory \<Rightarrow> False
      | Some (RegularFile content mode) \<Rightarrow> calculateFileChecksum path = checksum)"

definition updateProgress :: "bool \<Rightarrow> int \<Rightarrow> RestoreService \<Rightarrow> RestoreService" where
  "updateProgress success n r =
     (if success
      then r\<lparr>progress := (progress r)\<lparr>RestoredFiles := RestoredFiles (progress r) + 1,
                                       RestoredSize := RestoredSize (progress r) + n\<rparr>\<rparr>
      else r\<lparr>progress := (progress r)\<lparr>FailedFiles := FailedFiles (progress r) + 1\<rparr>\<rparr>)"

definition recordError ::
  "restore_world \<Rightarrow> string \<Rightarrow> string \<Rightarrow> string \<Rightarrow> RestoreService \<Rightarrow> RestoreService" where
  "recordError w filePath fileID errMsg r =
     r\<lparr>progress := (progress r)\<lparr>Errors := Errors (progress r) @
         [\<lparr>re_FilePath = filePath, re_FileID = fileID, re_Error = errMsg,
           re_Time = time_now w\<rparr>]\<rparr>\<rparr>"

definition downloadFile ::
  "restore_world \<Rightarrow> string \<Rightarrow> RestoreService \<Rightarrow> (string + byte list) \<times> RestoreService" where
  "downloadFile w fileID r =
     (DownloadFile_result w fileID, r\<lparr>download_calls := download_calls r @ [fileID]\<rparr>)"

definition WriteFile ::
  "string \<Rightarrow> byte list \<Rightarrow> nat \<Rightarrow> (string \<rightharpoonup> node) \<Rightarrow> (string \<rightharpoonup> node)" where
  "WriteFile path data perm d =
     (case d path of
        Some (RegularFile old mode) \<Rightarrow> d(path \<mapsto> RegularFile data mode)
      | _ \<Rightarrow> d(path \<mapsto> RegularFile data perm))"

definition restoreFile ::
  "RestoreService \<Rightarrow> restore_world \<Rightarrow> FileManifestEntry \<Rightarrow> string \<Rightarrow> RestoreService" where
  "restoreFile r w entry targetDir =
     (let cleanPath = Base w (me_FilePath entry);
          targetPath = Join w targetDir cleanPath
      in if fileExists (disk r) targetPath (me_Checksum entry)
         then updateProgress True (me_Size entry) r
         else case downloadFile w (me_FileID entry) r of
           (Inl err, r1) \<Rightarrow>
             updateProgress False 0
               (recordError w (me_FilePath entry) (me_FileID entry) err r1)
         | (Inr fileData, r1) \<Rightarrow>
             let targetFileDir = Dir w targetPath
             in case MkdirAll_error w targetFileDir of
                  Some err \<Rightarrow>
                    updateProgress False 0
                      (recordError w (me_FilePath entry) (me_FileID entry) err r1)
                | None \<Rightarrow>
                    let r2 = r1\<lparr>disk := (disk r1)(targetFileDir \<mapsto> Directory)\<rparr>
                    in case WriteFile_error w targetPath of
                         Some err \<Rightarrow>
                           updateProgress False 0
                             (recordError w (me_FilePath entry) (me_FileID entry) err r2)
                       | None \<Rightarrow>
                           updateProgress True (me_Size entry)
                             (r2\<lparr>disk := WriteFile targetPath fileData
                                             (me_Permissions entry) (disk r2)\<rparr>))"


section \<open>The API client (internal/api/client.go)\<close>

text \<open>
  The HTTP transport is a parameter: the result of the \<open>k\<close>-th request sent by the
  client (counted from 0), for its verb and URL, is a transport error or a response
  with a status and a body. The state of the network side is the list of the requests
  sent and the list of the pauses made, in seconds. Building a request does not fail,
  and the context is not cancelled. Parsing the body of a successful upload is a
  parameter that yields the file id, or nothing when the body is not the expected JSON.
\<close>

record Client =
  BaseURL :: string
  DirectoryID :: string
  retryCount :: int

datatype http_result = TransportError string | Response int string

type_synonym transport = "nat \<Rightarrow> string \<Rightarrow> string \<Rightarrow> http_result"

record net =
  requests :: "(string \<times> string) list"
  sleeps :: "int list"

datatype last_error = TransportFailure string | ServerError int

datatype api_error =
  RequestFailed int "last_error option" | ExecuteFailed string | ApiError int string
  | ParseFailed

definition send :: "transport \<Rightarrow> string \<Rightarrow> string \<Rightarrow> net \<Rightarrow> http_result \<times> net" where
  "send tr meth url n =
     (tr (length (requests n)) meth url, n\<lparr>requests := requests n @ [(meth, url)]\<rparr>)"

function doRequest_loop ::
  "Client \<Rightarrow> transport \<Rightarrow> string \<Rightarrow> string \<Rightarrow> int \<Rightarrow> last_error option \<Rightarrow> net
   \<Rightarrow> (api_error + int \<times> string) \<times> net" where
  "doRequest_loop c tr meth url i lastErr n =
     (if i \<le> retryCount c then
        (case send tr meth url (if i > 0 then n\<lparr>sleeps := sleeps n @ [i * i]\<rparr> else n) of
           (TransportError err, n') \<Rightarrow>
             doRequest_loop c tr meth url (i + 1) (Some (TransportFailure err)) n'
         | (Response status body, n') \<Rightarrow>
             if status \<ge> 400 \<and> status < 500 then (Inr (status, body), n')
             else if status \<ge> 500
             then doRequest_loop c tr meth url (i + 1) (Some (ServerError status)) n'
             else (Inr (status, body), n'))
      else (Inl (RequestFailed (retryCount c + 1) lastErr), n))"
  by pat_completeness auto
termination
  by (relation "measure (\<lambda>(c, tr, meth, url, i, lastErr, n). nat (retryCount c + 1 - i))")
     auto

definition doRequest ::
  "Client \<Rightarrow> transport \<Rightarrow> string \<Rightarrow> string \<Rightarrow> net \<Rightarrow> (api_error + int \<times> string) \<times> net" where
  "doRequest c tr meth endpoint n = doRequest_loop c tr meth (BaseURL c @ endpoint) 0 None n"

text \<open>
  \<open>UploadFile\<close> builds the multipart request itself and sends it with one call of the
  HTTP client, outside \<open>doRequest\<close>.
\<close>

definition Client_UploadFile ::
  "Client \<Rightarrow> transport \<Rightarrow> (string \<Rightarrow> string option) \<Rightarrow> string \<Rightarrow> byte list \<Rightarrow> int \<Rightarrow> string
   \<Rightarrow> net \<Rightarrow> (api_error + string) \<times> net" where
  "Client_UploadFile c tr parse filePath fileData fileSize checksum n =
     (let endpoint = ''/api/clients/v1/files'';
          url = BaseURL c @ endpoint @
                (if DirectoryID c \<noteq> '''' then ''?directory_id='' @ DirectoryID c else '''')
      in case send tr ''POST'' url n of
           (TransportError err, n') \<Rightarrow> (Inl (ExecuteFailed err), n')
         | (Response status body, n') \<Rightarrow>
             if status \<noteq> 200 \<and> status \<noteq> 201 then (Inl (ApiError status body), n')
             else (case parse body of
                     None \<Rightarrow> (Inl ParseFailed, n')
                   | Some fileID \<Rightarrow> (Inr fileID, n')))"

definition Client_DownloadFile ::
  "Client \<Rightarrow> transport \<Rightarrow> string \<Rightarrow> net \<Rightarrow> (api_error + string) \<times> net" where
  "Client_DownloadFile c tr fileID n =
     (case doRequest c tr ''GET'' (''/api/clients/v1/files/'' @ fileID) n of
        (Inl err, n1) \<Rightarrow> (Inl err, n1)
      | (Inr (status, body), n1) \<Rightarrow>
          if status \<noteq> 200 then
            (if status = 400 then
               (case doRequest c tr ''GET''
                       (''/api/clients/v1/files/'' @ fileID @ ''/download'') n1 of
                  (Inl err2, n2) \<Rightarrow> (Inl (ApiError status body), n2)
                | (Inr (status2, body2), n2) \<Rightarrow>
                    if status2 = 200 then (Inr body2, n2)
                    else (Inl (ApiError status body), n2))
             else (Inl (ApiError status body), n1))
          else (Inr body, n1))"

text \<open>The results after which \<open>doRequest\<close> tries again: a transport error or a status from 500.\<close>

fun is_retryable :: "http_result \<Rightarrow> bool" where
  "is_retryable (TransportError err) = True"
| "is_retryable (Response status body) = (status \<ge> 500)"


section \<open>A small instance of the library interfaces\<close>

text \<open>
  The theorems below are stated for arbitrary library functions that meet the stated
  contracts. The following instance meets them and serves to instantiate the theorems
  at concrete inputs: sealing prefixes the key and the first twelve nonce bytes to the
  plaintext, opening checks and strips that prefix; the key is the bytes of the
  password; the codecs add and strip one header byte.
\<close>

definition toy_gcm :: "byte list \<Rightarrow> gcm" where
  "toy_gcm key =
     \<lparr>gcm_Seal = (\<lambda>nonce pt. key @ take 12 nonce @ pt),
      gcm_Open = (\<lambda>nonce ct.
         if take (length (key @ take 12 nonce)) ct = key @ take 12 nonce
         then Some (drop (length (key @ take 12 nonce)) ct) else None)\<rparr>"

definition toy_crypto :: crypto_lib where
  "toy_crypto =
     \<lparr>pbkdf2_Key = (\<lambda>pw salt. map (\<lambda>c. of_nat (of_char c)) pw), NewGCM = toy_gcm\<rparr>"

fun toy_decode :: "byte \<Rightarrow> byte list \<Rightarrow> decode_result" where
  "toy_decode h [] = HeaderError"
| "toy_decode h (b # bs) = (if b = h then Decoded bs else HeaderError)"

definition toy_codec :: codec_lib where
  "toy_codec =
     \<lparr>gzip_encode = (\<lambda>level data. 31 # data), gzip_decode = toy_decode 31,
      zlib_encode = (\<lambda>level data. 120 # data), zlib_decode = toy_decode 120\<rparr>"

text \<open>
  A service that has backed up \<open>/data/a.txt\<close> successfully, and a world given by its
  files and its upload call. The stand-in for SHA-256 never returns the empty string.
\<close>

definition demo_service :: Service where
  "demo_service =
     \<lparr>maxFileSize = 1048576, backupQueue = [],
      backupState = [''/data/a.txt'' \<mapsto>
        \<lparr>LastBackup = 1, LastChecksum = ''abc123'', BackupCount = 1, Status = ''success''\<rparr>],
      compressor = NoOpCompressor, compression = False, reporter = [], db = None\<rparr>"

definition demo_world ::
  "(string \<rightharpoonup> byte list) \<Rightarrow> (string \<Rightarrow> byte list \<Rightarrow> int \<Rightarrow> string \<Rightarrow> string + string)
   \<Rightarrow> world" where
  "demo_world fs upload =
     \<lparr>files = fs, sha256_hex = (\<lambda>content. CHR ''#'' # replicate (length content) CHR ''0''),
      UploadFile = upload, now = 2, codecs = toy_codec\<rparr>"

text \<open>
  Path functions for paths with single slashes and no trailing slash, and a restore
  world given by its download results, in which creating directories and writing files
  succeed.
\<close>

definition demo_Base :: "string \<Rightarrow> string" where
  "demo_Base p = rev (takeWhile (\<lambda>c. c \<noteq> CHR ''/'') (rev p))"

definition demo_Join :: "string \<Rightarrow> string \<Rightarrow> string" where
  "demo_Join d b = d @ ''/'' @ b"

definition demo_Dir :: "string \<Rightarrow> string" where
  "demo_Dir p = rev (drop 1 (dropWhile (\<lambda>c. c \<noteq> CHR ''/'') (rev p)))"

definition demo_restore_world :: "(string \<Rightarrow> string + byte list) \<Rightarrow> restore_world" where
  "demo_restore_world dl =
     \<lparr>Base = demo_Base, Join = demo_Join, Dir = demo_Dir, DownloadFile_result = dl,
      MkdirAll_error = (\<lambda>p. None), WriteFile_error = (\<lambda>p. None), time_now = 3\<rparr>"

definition demo_restore :: "(string \<rightharpoonup> node) \<Rightarrow> RestoreService" where
  "demo_restore d =
     \<lparr>progress = \<lparr>TotalFiles = 1, RestoredFiles = 0, FailedFiles = 0, TotalSize = 0,
                   RestoredSize = 0, StartTime = 0, Errors = []\<rparr>,
      disk = d, download_calls = []\<rparr>"

definition demo_entry :: "string \<Rightarrow> bool \<Rightarrow> FileManifestEntry" where
  "demo_entry checksum compressed =
     \<lparr>me_FilePath = ''/data/a.txt'', me_FileID = ''id-1'', me_Size = 1,
      me_Checksum = checksum, me_BackupTime = 1, me_Permissions = 420,
      me_Compressed = compressed\<rparr>"

text \<open>
  A client that allows three retries, and a transport whose first request fails with a
  connection error and whose later requests are answered with status 200.
\<close>

definition demo_client :: Client where
  "demo_client = \<lparr>BaseURL = ''https://api'', DirectoryID = '''', retryCount = 3\<rparr>"

definition flaky_transport :: transport where
  "flaky_transport k meth url =
     (if k = 0 then TransportError ''connection reset'' else Response 200 ''body'')"

definition no_requests :: net where
  "no_requests = \<lparr>requests = [], sleeps = []\<rparr>"


section \<open>Properties\<close>

declare encrypt_chunks.simps [simp del]
declare decrypt_chunks.simps [simp del]
declare encrypt_frames.simps [simp del]

declare doRequest_loop.simps [simp del]

subsection \<open>Bytes and the length prefix\<close>

lemma bit_lt32: "(n::nat) < 2 ^ 32 \<Longrightarrow> bit n k \<Longrightarrow> k < 32"
proof (rule ccontr)
  assume n: "n < 2 ^ 32" and b: "bit n k" and k: "\<not> k < 32"
  have "(2::nat) ^ 32 \<le> 2 ^ k" using k by (intro power_increasing) auto
  with n have "n div 2 ^ k = 0" by simp
  with b show False by (simp add: bit_iff_odd)
qed

lemma chunkSizeOf_chunkSizeBytes: "n < 2 ^ 32 \<Longrightarrow> chunkSizeOf (chunkSizeBytes n) = n"
  unfolding chunkSizeOf_def chunkSizeBytes_def
  apply (simp add: unsigned_of_nat)
  apply (rule bit_eqI)
  subgoal for k
    using bit_lt32[of n k]
    apply (cases "k < 8"; cases "k < 16"; cases "k < 24")
    apply (auto simp add: bit_or_iff bit_push_bit_iff bit_take_bit_iff bit_drop_bit_eq)
    done
  done

lemma length_chunkSizeBytes: "length (chunkSizeBytes n) = 4"
  by (simp add: chunkSizeBytes_def)

subsection \<open>The nonce counter\<close>

lemma be_val_Nil: "be_val [] = 0" by (simp add: be_val_def)
lemma be_val_snoc: "be_val (bs @ [b]) = be_val bs * 256 + unat b" by (simp add: be_val_def)

lemma be_val_bound: "be_val bs < 256 ^ length bs"
proof (induction bs rule: rev_induct)
  case Nil then show ?case by (simp add: be_val_Nil)
next
  case (snoc b bs)
  have "unat b < 256" using unsigned_less[of b] by simp
  with snoc show ?case by (simp add: be_val_snoc)
qed

lemma byte_succ_zero: "(b::byte) + 1 = 0 \<longleftrightarrow> unat b = 255"
proof -
  have lt: "unat b < 256" using unsigned_less[of b] by simp
  have "(b + 1 = 0) \<longleftrightarrow> unat (b + 1) = 0" by (simp add: unat_eq_zero)
  also have "unat (b + 1) = (unat b + 1) mod 256" by (simp add: unat_word_ariths)
  also have "((unat b + 1) mod 256 = 0) \<longleftrightarrow> unat b = 255" using lt by presburger
  finally show ?thesis .
qed

lemma byte_succ_unat: "(b::byte) + 1 \<noteq> 0 \<Longrightarrow> unat (b + 1) = unat b + 1"
  by (simp add: add.commute unatSuc)

lemma incrementNonce_loop_length: "length (incrementNonce_loop i xs) = length xs"
  by (induction i arbitrary: xs) (simp_all add: Let_def)

lemma incrementNonce_length: "length (incrementNonce xs) = length xs"
  by (simp add: incrementNonce_def incrementNonce_loop_length)

lemma incrementNonce_loop_append:
  "i < length xs \<Longrightarrow> incrementNonce_loop i (xs @ ys) = incrementNonce_loop i xs @ ys"
proof (induction i arbitrary: xs)
  case 0
  then show ?case by (simp add: list_update_append nth_append)
next
  case (Suc i)
  then show ?case by (simp add: Let_def list_update_append nth_append)
qed

lemma incrementNonce_snoc:
  "incrementNonce (pre @ [b]) =
     (if b + 1 \<noteq> 0 then pre @ [b + 1] else incrementNonce pre @ [0])"
proof (cases "pre = []")
  case True
  then show ?thesis by (simp add: incrementNonce_def)
next
  case False
  then obtain i where i: "length pre = Suc i" by (cases pre) auto
  have upd: "(pre @ [b])[Suc i := (pre @ [b]) ! Suc i + 1] = pre @ [b + 1]"
    using i by (metis list_update_length nth_append_length)
  have nth: "(pre @ [b + 1]) ! Suc i = b + 1"
    using i by (metis nth_append_length)
  have "incrementNonce (pre @ [b]) = incrementNonce_loop (Suc i) (pre @ [b])"
    using i by (simp add: incrementNonce_def)
  also have "\<dots> = (if b + 1 \<noteq> 0 then pre @ [b + 1]
                     else incrementNonce_loop i (pre @ [b + 1]))"
    by (simp add: Let_def upd nth)
  also have "\<dots> = (if b + 1 \<noteq> 0 then pre @ [b + 1] else incrementNonce pre @ [0])"
    using i False incrementNonce_loop_append[of i pre "[0]"]
    by (simp add: incrementNonce_def)
  finally show ?thesis .
qed

lemma be_val_incrementNonce:
  "be_val (incrementNonce xs) = (be_val xs + 1) mod 256 ^ length xs"
proof (induction xs rule: rev_induct)
  case Nil
  then show ?case by (simp add: incrementNonce_def be_val_Nil)
next
  case (snoc b p)
  have ub: "unat b < 256" using unsigned_less[of b] by simp
  show ?case
  proof (cases "b + 1 = 0")
    case True
    then have u: "unat b = 255" by (simp add: byte_succ_zero)
    have "be_val (incrementNonce (p @ [b])) = ((be_val p + 1) mod 256 ^ length p) * 256"
      using True snoc.IH by (simp add: incrementNonce_snoc be_val_snoc)
    also have "\<dots> = ((be_val p + 1) * 256) mod (256 ^ length p * 256)"
      by (rule mult_mod_left)
    also have "(be_val p + 1) * 256 = be_val (p @ [b]) + 1"
      using u by (simp add: be_val_snoc)
    finally show ?thesis by (simp add: mult.commute)
  next
    case False
    then have u: "unat (b + 1) = unat b + 1" by (rule byte_succ_unat)
    have "unat (b + 1) < 256" using unsigned_less[of "b + 1", where 'a = nat] by simp
    with u have "unat b + 1 < 256" by simp
    then have "be_val p * 256 + unat b + 1 < 256 ^ length p * 256"
      using be_val_bound[of p] by linarith
    then show ?thesis using False u by (simp add: incrementNonce_snoc be_val_snoc)
  qed
qed

lemma be_val_funpow:
  "be_val ((incrementNonce ^^ i) nonce) = (be_val nonce + i) mod 256 ^ length nonce"
proof (induction i)
  case 0
  then show ?case using be_val_bound[of nonce] by simp
next
  case (Suc i)
  have len: "length ((incrementNonce ^^ i) nonce) = length nonce"
    by (induction i) (simp_all add: incrementNonce_length)
  show ?case
    by (simp add: be_val_incrementNonce len Suc.IH mod_Suc_eq)
qed

lemma funpow_length: "length ((incrementNonce ^^ i) nonce) = length nonce"
  by (induction i) (simp_all add: incrementNonce_length)

lemma nonce_distinct:
  assumes "i < j" "j < 256 ^ length nonce"
  shows "(incrementNonce ^^ i) nonce \<noteq> (incrementNonce ^^ j) nonce"
proof
  assume "(incrementNonce ^^ i) nonce = (incrementNonce ^^ j) nonce"
  then have eq: "(be_val nonce + j) mod 256 ^ length nonce = (be_val nonce + i) mod 256 ^ length nonce"
    using be_val_funpow[of i nonce] be_val_funpow[of j nonce] by simp
  have le: "be_val nonce + i \<le> be_val nonce + j" using assms by simp
  have "256 ^ length nonce dvd j - i"
    using mod_eq_dvd_iff_nat[OF le, of "256 ^ length nonce"] eq by simp
  moreover have "0 < j - i" "j - i < 256 ^ length nonce" using assms by auto
  ultimately show False using nat_dvd_not_less by blast
qed

lemma chunk_count_step:
  assumes "inp \<noteq> []"
  shows "chunk_count inp = Suc (chunk_count (drop 4096 inp))"
proof -
  define l where "l = length inp"
  have pos: "0 < l" using assms by (simp add: l_def)
  have "(l + 4095) div 4096 = Suc ((l - 4096 + 4095) div 4096)"
  proof (cases "4096 \<le> l")
    case True
    then have "l + 4095 = (l - 4096 + 4095) + 4096" by simp
    then show ?thesis by (simp only: div_add_self2)
  next
    case False
    then have "(l + 4095) div 4096 = 1" using pos by simp
    moreover have "(l - 4096 + 4095) div 4096 = 0" using False by simp
    ultimately show ?thesis by simp
  qed
  then show ?thesis by (simp add: chunk_count_def l_def)
qed

lemma encrypt_chunks_frames: "encrypt_chunks g nonce inp = concat (encrypt_frames g nonce inp)"
proof (induction g nonce inp rule: encrypt_chunks.induct)
  case (1 g nonce inp)
  then show ?case
    by (subst encrypt_chunks.simps, subst encrypt_frames.simps)
       (simp add: Let_def sealed_frame_def)
qed

lemma encrypt_frames_closed:
  "encrypt_frames g nonce inp =
     map (\<lambda>i. sealed_frame g ((incrementNonce ^^ i) nonce) (take 4096 (drop (4096 * i) inp)))
       [0..<chunk_count inp]"
proof (induction g nonce inp rule: encrypt_frames.induct)
  case (1 g nonce inp)
  show ?case
  proof (cases "inp = []")
    case True
    then show ?thesis by (subst encrypt_frames.simps) (simp add: chunk_count_def)
  next
    case False
    have upt: "[0..<Suc (chunk_count (drop 4096 inp))] = 0 # map Suc [0..<chunk_count (drop 4096 inp)]"
      by (simp add: upt_conv_Cons map_Suc_upt del: upt_Suc)
    show ?thesis
      apply (subst encrypt_frames.simps)
      apply (simp add: False 1 chunk_count_step upt funpow_swap1 o_def add.commute del: upt_Suc)
      done
  qed
qed

subsection \<open>The chunk loops\<close>

lemma chunkSizeBytes_not_Nil: "chunkSizeBytes n \<noteq> []"
  by (simp add: chunkSizeBytes_def)

lemma decrypt_chunks_Nil: "decrypt_chunks g n [] out = (None, out)"
  by (subst decrypt_chunks.simps) simp

lemma decrypt_chunks_short:
  "xs \<noteq> [] \<Longrightarrow> length xs < 4 \<Longrightarrow> decrypt_chunks g n xs out = (Some ReadChunkSizeFailed, out)"
  by (subst decrypt_chunks.simps) simp

lemma decrypt_chunks_cut:
  "length c < 2 ^ 32 \<Longrightarrow> m < length c \<Longrightarrow>
   decrypt_chunks g n (chunkSizeBytes (length c) @ take m c) out = (Some ReadChunkFailed, out)"
  by (subst decrypt_chunks.simps)
     (simp add: length_chunkSizeBytes chunkSizeBytes_not_Nil chunkSizeOf_chunkSizeBytes Let_def)

lemma decrypt_chunks_frame:
  "length c < 2 ^ 32 \<Longrightarrow>
   decrypt_chunks g n (chunkSizeBytes (length c) @ c @ rest) out =
     (case gcm_Open g n c of
        None \<Rightarrow> (Some DecryptChunkFailed, out)
      | Some d \<Rightarrow> decrypt_chunks g (incrementNonce n) rest (out @ d))"
  by (subst decrypt_chunks.simps)
     (simp add: length_chunkSizeBytes chunkSizeBytes_not_Nil chunkSizeOf_chunkSizeBytes Let_def
           split: option.splits)

lemma decrypt_encrypt_chunks:
  assumes ok: "\<forall>n p. gcm_Open g n (gcm_Seal g n p) = Some p"
    and len: "\<forall>n p. length p \<le> 4096 \<longrightarrow> length (gcm_Seal g n p) < 2 ^ 32"
  shows "decrypt_chunks g nonce (encrypt_chunks g nonce inp) out = (None, out @ inp)"
  using assms
proof (induction g nonce inp arbitrary: out rule: encrypt_chunks.induct)
  case (1 g nonce inp)
  show ?case
  proof (cases "inp = []")
    case True
    then show ?thesis
      by (subst encrypt_chunks.simps) (simp add: decrypt_chunks_Nil)
  next
    case False
    have l: "length (gcm_Seal g nonce (take 4096 inp)) < 2 ^ 32"
      using "1.prems"(2) by simp
    show ?thesis
      using False "1.prems" "1.IH"[OF False refl "1.prems", of "out @ take 4096 inp"]
      by (subst encrypt_chunks.simps) (simp add: Let_def decrypt_chunks_frame[OF l])
  qed
qed

lemma boundary_Cons:
  "(\<exists>j \<le> length (f # fs). k = length (concat (take j (f # fs)))) \<longleftrightarrow>
   k = 0 \<or> (length f \<le> k \<and> (\<exists>j \<le> length fs. k - length f = length (concat (take j fs))))"
proof
  assume "\<exists>j \<le> length (f # fs). k = length (concat (take j (f # fs)))"
  then obtain j where j: "j \<le> length (f # fs)" "k = length (concat (take j (f # fs)))"
    by blast
  show "k = 0 \<or> (length f \<le> k \<and> (\<exists>j \<le> length fs. k - length f = length (concat (take j fs))))"
  proof (cases j)
    case 0
    with j show ?thesis by simp
  next
    case (Suc j')
    with j have "length f \<le> k" "j' \<le> length fs" "k - length f = length (concat (take j' fs))"
      by simp_all
    then show ?thesis by blast
  qed
next
  assume "k = 0 \<or> (length f \<le> k \<and> (\<exists>j \<le> length fs. k - length f = length (concat (take j fs))))"
  then show "\<exists>j \<le> length (f # fs). k = length (concat (take j (f # fs)))"
  proof
    assume "k = 0"
    then show ?thesis by (intro exI[of _ 0]) simp
  next
    assume "length f \<le> k \<and> (\<exists>j \<le> length fs. k - length f = length (concat (take j fs)))"
    then obtain j where "length f \<le> k" "j \<le> length fs" "k - length f = length (concat (take j fs))"
      by blast
    then show ?thesis by (intro exI[of _ "Suc j"]) simp
  qed
qed

lemma decrypt_truncated:
  assumes ok: "\<forall>n p. gcm_Open g n (gcm_Seal g n p) = Some p"
    and len: "\<forall>n p. length p \<le> 4096 \<longrightarrow> length (gcm_Seal g n p) < 2 ^ 32"
    and k: "k \<le> length (concat (encrypt_frames g nonce inp))"
  shows "fst (decrypt_chunks g nonce (take k (concat (encrypt_frames g nonce inp))) out) = None
         \<longleftrightarrow> (\<exists>j \<le> length (encrypt_frames g nonce inp).
                k = length (concat (take j (encrypt_frames g nonce inp))))"
  using assms
proof (induction g nonce inp arbitrary: k out rule: encrypt_frames.induct)
  case (1 g nonce inp)
  show ?case
  proof (cases "inp = []")
    case True
    then have "encrypt_frames g nonce inp = []" by (subst encrypt_frames.simps) simp
    then show ?thesis using "1.prems"(3) by (simp add: decrypt_chunks_Nil)
  next
    case False
    define c where "c = gcm_Seal g nonce (take 4096 inp)"
    define fs where "fs = encrypt_frames g (incrementNonce nonce) (drop 4096 inp)"
    have fr: "encrypt_frames g nonce inp = (chunkSizeBytes (length c) @ c) # fs"
      using False by (subst encrypt_frames.simps) (simp add: sealed_frame_def c_def fs_def)
    have l: "length c < 2 ^ 32" using "1.prems"(2) by (simp add: c_def)
    have op: "gcm_Open g nonce c = Some (take 4096 inp)" using "1.prems"(1) by (simp add: c_def)
    have k: "k \<le> 4 + length c + length (concat fs)"
      using "1.prems"(3) by (simp add: fr length_chunkSizeBytes)
    have rhs: "(\<exists>j \<le> length (encrypt_frames g nonce inp).
                k = length (concat (take j (encrypt_frames g nonce inp))))
         \<longleftrightarrow> k = 0 \<or> (4 + length c \<le> k \<and> (\<exists>j \<le> length fs. k - (4 + length c) = length (concat (take j fs))))"
      unfolding fr using boundary_Cons[of "chunkSizeBytes (length c) @ c" fs k]
      by (simp add: length_chunkSizeBytes)
    consider "k = 0" | "0 < k" "k < 4" | "4 \<le> k" "k < 4 + length c" | "4 + length c \<le> k"
      by linarith
    then show ?thesis
    proof cases
      case 1
      then show ?thesis unfolding rhs by (simp add: decrypt_chunks_Nil)
    next
      case 2
      then have "decrypt_chunks g nonce (take k (concat (encrypt_frames g nonce inp))) out = (Some ReadChunkSizeFailed, out)"
        using k by (intro decrypt_chunks_short) (auto simp add: fr length_chunkSizeBytes chunkSizeBytes_not_Nil)
      then show ?thesis unfolding rhs using 2 by simp
    next
      case 3
      then have "take k (concat (encrypt_frames g nonce inp)) = chunkSizeBytes (length c) @ take (k - 4) c"
        by (simp add: fr length_chunkSizeBytes)
      then show ?thesis unfolding rhs using 3 decrypt_chunks_cut[OF l, of "k - 4" g nonce out] by simp
    next
      case 4
      then have tk: "take k (concat (encrypt_frames g nonce inp)) = chunkSizeBytes (length c) @ c @ take (k - (4 + length c)) (concat fs)"
        by (simp add: fr length_chunkSizeBytes)
      have "k - (4 + length c) \<le> length (concat fs)" using k 4 by simp
      from "1.IH"[OF False "1.prems"(1,2) this[unfolded fs_def], of "out @ take 4096 inp"]
      show ?thesis unfolding rhs tk using 4 by (simp add: decrypt_chunks_frame[OF l] op fs_def)
    qed
  qed
qed

subsection \<open>Whole files\<close>

lemma DecryptFile_EncryptFile:
  assumes "\<forall>n p. gcm_Open (NewGCM lib (pbkdf2_Key lib pw salt)) n
                  (gcm_Seal (NewGCM lib (pbkdf2_Key lib pw salt)) n p) = Some p"
    and "\<forall>n p. length p \<le> 4096 \<longrightarrow>
                length (gcm_Seal (NewGCM lib (pbkdf2_Key lib pw salt)) n p) < 2 ^ 32"
    and "length salt = SaltSize" and "length nonce = NonceSize"
  shows "DecryptFile lib pw (EncryptFile lib pw salt nonce x) = (None, x)"
  using assms decrypt_encrypt_chunks[OF assms(1,2), of nonce x "[]"]
  by (simp add: DecryptFile_def EncryptFile_def Let_def)

lemma Decompress_Compress:
  assumes "\<forall>level x. gzip_decode clib (gzip_encode clib level x) = Decoded x"
    and "\<forall>level x. zlib_decode clib (zlib_encode clib level x) = Decoded x"
    and "NewCompressor format level = Inr c"
  shows "\<exists>y. Compress clib c x = Inr y \<and> Decompress clib c y = Inr x"
  using assms
  by (cases c)
     (auto simp add: NewCompressor_def DefaultCompression_def BestCompression_def
        HuffmanOnly_def split: if_splits)

subsection \<open>The small instance meets the contracts\<close>

lemma toy_open_seal:
  "gcm_Open (toy_gcm key) n (gcm_Seal (toy_gcm key) n p) = Some p"
  by (simp add: toy_gcm_def min_def)

lemma toy_seal_length:
  "length key \<le> 64 \<Longrightarrow> length p \<le> 4096 \<Longrightarrow>
   length (gcm_Seal (toy_gcm key) n p) < 2 ^ 32"
  by (simp add: toy_gcm_def)

lemma toy_key_length: "length (pbkdf2_Key toy_crypto pw salt) = length pw"
  by (simp add: toy_crypto_def)

lemma toy_NewGCM: "NewGCM toy_crypto = toy_gcm"
  by (simp add: toy_crypto_def)

lemma toy_codec_roundtrip:
  "gzip_decode toy_codec (gzip_encode toy_codec level x) = Decoded x"
  "zlib_decode toy_codec (zlib_encode toy_codec level x) = Decoded x"
  by (simp_all add: toy_codec_def)


lemma EncryptFile_frames:
  "EncryptFile lib pw salt nonce inp =
     salt @ nonce @ concat (encrypt_frames (NewGCM lib (pbkdf2_Key lib pw salt)) nonce inp)"
  by (simp add: EncryptFile_def Let_def encrypt_chunks_frames)

subsection \<open>The backup service\<close>

text \<open>The delete branch of the worker, when it is reached, marks the path as deleted.\<close>

lemma processBackup_delete:
  "task_Operation task = ''delete'' \<Longrightarrow>
   \<exists>state. backupState (processBackup s w task) (task_FilePath task) = Some state \<and>
           Status state = ''deleted''"
  by (simp add: processBackup_def updateBackupState_def AddResult_def Let_def)

text \<open>
  What a worker leaves behind when it reaches the upload of a task: after a successful
  upload and after a failed one alike, the last checksum of the path is the checksum
  computed for this task.
\<close>

lemma processBackup_upload_outcome:
  assumes "task_Operation task \<noteq> ''delete''"
    and "files w (task_FilePath task) = Some content"
    and "checksum = sha256_hex w content"
    and "checksum \<noteq> ''''"
    and "\<forall>state. backupState s (task_FilePath task) = Some state \<longrightarrow>
           LastChecksum state \<noteq> checksum"
    and "compression s \<longrightarrow> Compress (codecs w) (compressor s) content = Inr cdata"
    and "uploadData = (if compression s then cdata else content)"
    and "uploadSize = (if compression s then int (length cdata) else task_Size task)"
    and "count = (case backupState s (task_FilePath task) of
                    None \<Rightarrow> 0 | Some state \<Rightarrow> BackupCount state)"
  shows "(\<forall>fileID. UploadFile w (task_FilePath task) uploadData uploadSize checksum = Inr fileID
            \<longrightarrow> (\<exists>state result.
                  backupState (processBackup s w task) (task_FilePath task) = Some state \<and>
                  Status state = ''success'' \<and> LastChecksum state = checksum \<and>
                  BackupCount state = count + 1 \<and>
                  reporter (processBackup s w task) = reporter s @ [result] \<and>
                  res_Success result \<and> res_Error result = None \<and>
                  res_FileID result = fileID \<and> res_Checksum result = checksum)) \<and>
         (\<forall>e. UploadFile w (task_FilePath task) uploadData uploadSize checksum = Inl e
            \<longrightarrow> (\<exists>state result.
                  backupState (processBackup s w task) (task_FilePath task) = Some state \<and>
                  Status state = ''failed'' \<and> LastChecksum state = checksum \<and>
                  BackupCount state = count \<and>
                  reporter (processBackup s w task) = reporter s @ [result] \<and>
                  \<not> res_Success result \<and> res_Error result = Some (UploadFailed e) \<and>
                  res_Checksum result = checksum))"
proof -
  have skip: "\<not> (case backupState s (task_FilePath task) of
                   None \<Rightarrow> False | Some state \<Rightarrow> LastChecksum state = checksum)"
    using assms(5) by (auto split: option.splits)
  have cs: "calculateChecksum w (task_FilePath task) = Inr checksum"
    using assms(2,3) by (simp add: calculateChecksum_def)
  show ?thesis
  proof (cases "compression s")
    case True
    then show ?thesis
      using assms(1,2,4,6,7,8,9) skip cs
      by (auto simp add: processBackup_def updateBackupState_def AddResult_def Let_def
            split: option.splits)
  next
    case False
    then show ?thesis
      using assms(1,2,4,6,7,8,9) skip cs
      by (auto simp add: processBackup_def updateBackupState_def AddResult_def Let_def
            split: option.splits)
  qed
qed

subsection \<open>The restore service\<close>

text \<open>
  The check for an existing file compares the manifest checksum with the empty string:
  it holds exactly for a regular file and an entry without checksum.
\<close>

lemma fileExists_iff:
  "fileExists d path checksum \<longleftrightarrow>
     (\<exists>content mode. d path = Some (RegularFile content mode)) \<and> checksum = []"
  by (auto simp add: fileExists_def calculateFileChecksum_def split: option.splits node.splits)

lemma demo_target_path:
  "Join (demo_restore_world dl) ''/restore'' (Base (demo_restore_world dl) ''/data/a.txt'')
     = ''/restore/a.txt''"
  by (simp add: demo_restore_world_def demo_Base_def demo_Join_def)

lemma demo_target_dir: "Dir (demo_restore_world dl) ''/restore/a.txt'' = ''/restore''"
  by (simp add: demo_restore_world_def demo_Dir_def)

subsection \<open>The retry loop of the API client\<close>

text \<open>
  A response with a status from 400 to 499 ends \<open>doRequest\<close> at once. When every request
  meets a transport error or a status from 500, \<open>doRequest\<close> sends one request more than
  the retry count, pauses \<open>i * i\<close> seconds before the request with index \<open>i\<close> from 1,
  and fails.
\<close>

lemma doRequest_client_error:
  assumes "0 \<le> retryCount c"
    and "tr (length (requests n)) meth (BaseURL c @ endpoint) = Response status body"
    and "400 \<le> status" and "status < 500"
  shows "doRequest c tr meth endpoint n =
           (Inr (status, body),
            n\<lparr>requests := requests n @ [(meth, BaseURL c @ endpoint)]\<rparr>)"
  using assms by (simp add: doRequest_def doRequest_loop.simps send_def)

lemma doRequest_loop_all_fail:
  assumes "\<forall>k. is_retryable (tr k meth url)"
    and "1 \<le> i" and "i \<le> retryCount c + 1"
  shows "\<exists>e. doRequest_loop c tr meth url i lastErr n =
           (Inl (RequestFailed (retryCount c + 1) e),
            n\<lparr>requests := requests n @ replicate (nat (retryCount c + 1 - i)) (meth, url),
              sleeps := sleeps n @ map (\<lambda>j. j * j) [i..retryCount c]\<rparr>)"
  using assms
proof (induction c tr meth url i lastErr n rule: doRequest_loop.induct)
  case (1 c tr meth url i lastErr n)
  show ?case
  proof (cases "i \<le> retryCount c")
    case False
    with "1.prems" have "i = retryCount c + 1" by simp
    then show ?thesis by (subst doRequest_loop.simps) simp
  next
    case True
    define n' where "n' = n\<lparr>sleeps := sleeps n @ [i * i],
                             requests := requests n @ [(meth, url)]\<rparr>"
    have rep: "replicate (nat (retryCount c + 1 - i)) (meth, url) =
        (meth, url) # replicate (nat (retryCount c + 1 - (i + 1))) (meth, url)"
      using True by (simp add: nat_diff_distrib' flip: replicate_Suc) 
    have up: "[i..retryCount c] = i # [i + 1..retryCount c]"
      using True by (simp add: upto_rec1)
    have retry: "is_retryable (tr (length (requests n)) meth url)" using "1.prems"(1) by simp
    have i0: "0 < i" using "1.prems"(2) by simp
    have b1: "1 \<le> i + 1" "i + 1 \<le> retryCount c + 1" using True i0 by simp_all
    show ?thesis
    proof (cases "tr (length (requests n)) meth url")
      case (TransportError err)
      have s: "send tr meth url (if 0 < i then n\<lparr>sleeps := sleeps n @ [i * i]\<rparr> else n)
          = (TransportError err, n')"
        using TransportError i0 by (simp add: send_def n'_def)
      obtain e where "doRequest_loop c tr meth url (i + 1) (Some (TransportFailure err)) n' =
           (Inl (RequestFailed (retryCount c + 1) e),
            n'\<lparr>requests := requests n' @ replicate (nat (retryCount c + 1 - (i + 1))) (meth, url),
              sleeps := sleeps n' @ map (\<lambda>j. j * j) [i + 1..retryCount c]\<rparr>)"
        using "1.IH"(1)[OF True s[symmetric] refl "1.prems"(1) b1] by blast
      then show ?thesis
        using True s
        by (subst doRequest_loop.simps) (simp add: rep up n'_def)
    next
      case (Response status body)
      have st: "500 \<le> status" using retry Response by simp
      have s: "send tr meth url (if 0 < i then n\<lparr>sleeps := sleeps n @ [i * i]\<rparr> else n)
          = (Response status body, n')"
        using Response i0 by (simp add: send_def n'_def)
      have c1: "\<not> (400 \<le> status \<and> status < 500)" using st by simp
      obtain e where "doRequest_loop c tr meth url (i + 1) (Some (ServerError status)) n' =
           (Inl (RequestFailed (retryCount c + 1) e),
            n'\<lparr>requests := requests n' @ replicate (nat (retryCount c + 1 - (i + 1))) (meth, url),
              sleeps := sleeps n' @ map (\<lambda>j. j * j) [i + 1..retryCount c]\<rparr>)"
        using "1.IH"(2)[OF True s[symmetric] refl c1 st "1.prems"(1) b1] by blast
      then show ?thesis
        using True s st
        by (subst doRequest_loop.simps) (simp add: rep up n'_def)
    qed
  qed
qed

lemma doRequest_all_fail:
  assumes "\<forall>k. is_retryable (tr k meth (BaseURL c @ endpoint))"
    and "0 \<le> retryCount c"
  shows "\<exists>e. doRequest c tr meth endpoint n =
           (Inl (RequestFailed (retryCount c + 1) e),
            n\<lparr>requests := requests n @
                  replicate (nat (retryCount c + 1)) (meth, BaseURL c @ endpoint),
              sleeps := sleeps n @ map (\<lambda>j. j * j) [1..retryCount c]\<rparr>)"
proof -
  define url where "url = BaseURL c @ endpoint"
  define n' where "n' = n\<lparr>requests := requests n @ [(meth, url)]\<rparr>"
  have rep: "replicate (nat (retryCount c + 1)) (meth, url) =
      (meth, url) # replicate (nat (retryCount c + 1 - 1)) (meth, url)"
    using assms(2) by (simp add: nat_add_distrib flip: replicate_Suc)
  have retry: "is_retryable (tr (length (requests n)) meth url)"
    using assms(1) by (simp add: url_def)
  have all: "\<forall>k. is_retryable (tr k meth url)" using assms(1) by (simp add: url_def)
  have b: "(1::int) \<le> 1" "1 \<le> retryCount c + 1" using assms(2) by simp_all
  have loop: "\<exists>e. doRequest_loop c tr meth url 1 le n' =
           (Inl (RequestFailed (retryCount c + 1) e),
            n'\<lparr>requests := requests n' @ replicate (nat (retryCount c + 1 - 1)) (meth, url),
              sleeps := sleeps n' @ map (\<lambda>j. j * j) [1..retryCount c]\<rparr>)" for le
    using doRequest_loop_all_fail[of tr meth url 1 c le n'] all b by simp
  show ?thesis
  proof (cases "tr (length (requests n)) meth url")
    case (TransportError err)
    then show ?thesis
      using loop[of "Some (TransportFailure err)"] assms(2)
      unfolding doRequest_def url_def[symmetric]
      by (subst doRequest_loop.simps) (simp add: send_def rep n'_def)
  next
    case (Response status body)
    then have "500 \<le> status" using retry by simp
    then show ?thesis
      using loop[of "Some (ServerError status)"] assms(2) Response
      unfolding doRequest_def url_def[symmetric]
      by (subst doRequest_loop.simps) (simp add: send_def rep n'_def)
  qed
qed


section \<open>Claims\<close>

text \<open>
  C1. For every byte string \<open>x\<close> (the empty string, 4096 bytes and 4097 bytes included),
  decoding what the content transform encoded, under the same configuration and password,
  returns exactly \<open>x\<close>: for the compression stage, for the chunked encryption stage and
  for compression followed by encryption. The library contracts are hypotheses: opening
  what was sealed under the same key and nonce returns the plaintext, a sealed window
  fits the four-byte length prefix, and each decoder inverts its encoder.
\<close>

theorem content_transform_roundtrip:
  assumes "\<forall>n p. gcm_Open (NewGCM lib (pbkdf2_Key lib pw salt)) n
                  (gcm_Seal (NewGCM lib (pbkdf2_Key lib pw salt)) n p) = Some p"
    and "\<forall>n p. length p \<le> 4096 \<longrightarrow>
                length (gcm_Seal (NewGCM lib (pbkdf2_Key lib pw salt)) n p) < 2 ^ 32"
    and "length salt = SaltSize" and "length nonce = NonceSize"
    and "\<forall>level x. gzip_decode clib (gzip_encode clib level x) = Decoded x"
    and "\<forall>level x. zlib_decode clib (zlib_encode clib level x) = Decoded x"
    and "NewCompressor format level = Inr c"
  shows "(\<exists>y. Compress clib c x = Inr y \<and> Decompress clib c y = Inr x) \<and>
         DecryptFile lib pw (EncryptFile lib pw salt nonce x) = (None, x) \<and>
         (\<exists>y. Compress clib c x = Inr y \<and>
              fst (DecryptFile lib pw (EncryptFile lib pw salt nonce y)) = None \<and>
              Decompress clib c (snd (DecryptFile lib pw (EncryptFile lib pw salt nonce y)))
                = Inr x)"
proof -
  obtain y where y: "Compress clib c x = Inr y" "Decompress clib c y = Inr x"
    using Decompress_Compress[OF assms(5,6,7)] by blast
  have "DecryptFile lib pw (EncryptFile lib pw salt nonce y) = (None, y)"
    by (rule DecryptFile_EncryptFile[OF assms(1,2,3,4)])
  with y DecryptFile_EncryptFile[OF assms(1,2,3,4), of x] show ?thesis by simp
qed

text \<open>The round trip at a concrete input, with the small instance of the libraries.\<close>

theorem content_transform_roundtrip_witness:
  "DecryptFile toy_crypto ''pw'' (EncryptFile toy_crypto ''pw'' (replicate 32 7)
      (replicate 12 255) [1, 2, 3]) = (None, [1, 2, 3]) \<and>
   (\<exists>y. Compress toy_codec (GzipCompressor 6) [1, 2, 3] = Inr y \<and>
        Decompress toy_codec (GzipCompressor 6) y = Inr [1, 2, 3])"
proof -
  have h1: "\<forall>n p. gcm_Open (NewGCM toy_crypto (pbkdf2_Key toy_crypto ''pw'' (replicate 32 7))) n
      (gcm_Seal (NewGCM toy_crypto (pbkdf2_Key toy_crypto ''pw'' (replicate 32 7))) n p) = Some p"
    by (simp add: toy_NewGCM toy_open_seal)
  have h2: "\<forall>n p. length p \<le> 4096 \<longrightarrow>
      length (gcm_Seal (NewGCM toy_crypto (pbkdf2_Key toy_crypto ''pw'' (replicate 32 7))) n p)
        < 2 ^ 32"
    using toy_seal_length[of "pbkdf2_Key toy_crypto ''pw'' (replicate 32 7)"]
    by (simp add: toy_NewGCM toy_key_length)
  have h3: "length (replicate 32 (7::byte)) = SaltSize" by (simp add: SaltSize_def)
  have h4: "length (replicate 12 (255::byte)) = NonceSize" by (simp add: NonceSize_def)
  have h5: "\<forall>level x. gzip_decode toy_codec (gzip_encode toy_codec level x) = Decoded x"
    by (simp add: toy_codec_roundtrip)
  have h6: "\<forall>level x. zlib_decode toy_codec (zlib_encode toy_codec level x) = Decoded x"
    by (simp add: toy_codec_roundtrip)
  have h7: "NewCompressor ''gzip'' 6 = Inr (GzipCompressor 6)"
    by (simp add: NewCompressor_def DefaultCompression_def BestCompression_def)
  show ?thesis
    using content_transform_roundtrip[OF h1 h2 h3 h4 h5 h6 h7, of "[1, 2, 3]"] by blast
qed

text \<open>
  C2. If the file at the target path of a manifest entry already exists and its SHA-256
  checksum equals the checksum of the entry, restoring the entry should make no download
  call and count the entry as restored. The target \<open>/restore/a.txt\<close> holds the byte
  \<open>x\<close> and the entry carries the SHA-256 of that byte; \<open>restoreFile\<close> calls the download
  once, because \<open>calculateFileChecksum\<close> returns the empty string for every file.
\<close>

theorem matching_file_still_downloaded:
  "download_calls
     (restoreFile (demo_restore [''/restore/a.txt'' \<mapsto> RegularFile [120] 420])
        (demo_restore_world (\<lambda>fileID. Inr [120]))
        (demo_entry ''2d711642b726b04401627ca9fbac32f5c8530fb1903cc4db02258717921a4881'' False)
        ''/restore'')
   = [''id-1'']"
  by (simp add: restoreFile_def Let_def fileExists_def calculateFileChecksum_def
        downloadFile_def demo_entry_def demo_restore_def updateProgress_def WriteFile_def
        demo_restore_world_def demo_Base_def demo_Join_def demo_Dir_def)

text \<open>
  C3. A delete event on a non-directory path within the size limit should bypass the
  upload path, set the state of the path to "deleted" and record a success. The event of
  a file that has been deleted reaches \<open>needsBackup\<close> with an operation other than
  "create" and "modify" and a path that no longer exists, and is rejected there: no task
  is queued, the state of the path and the report stay as they were.
\<close>

theorem delete_event_dropped:
  "ProcessChange demo_service (demo_world Map.empty (\<lambda>p d n c. Inr ''id-1''))
     \<lparr>fc_Path = ''/data/a.txt'', fc_Operation = ''delete'', fc_Timestamp = 2, fc_Size = 0,
      fc_IsDir = False\<rparr> = demo_service"
  by (simp add: ProcessChange_def needsBackup_def demo_service_def demo_world_def)

text \<open>
  C4. The admission table accepts "create", "modify" and "manual" unconditionally.
  "manual" is the operation of the on-demand backup command. For a file whose last
  backup succeeded and whose content has changed since (its checksum is no longer the
  recorded one), \<open>needsBackup\<close> rejects the "manual" event and \<open>ProcessChange\<close> queues
  nothing: only "create" and "modify" pass unconditionally.
\<close>

theorem manual_backup_dropped:
  "calculateChecksum (demo_world [''/data/a.txt'' \<mapsto> [1, 2, 3]] (\<lambda>p d n c. Inr ''id-1''))
       ''/data/a.txt'' = Inr ''#000'' \<and>
   \<not> needsBackup demo_service
       (demo_world [''/data/a.txt'' \<mapsto> [1, 2, 3]] (\<lambda>p d n c. Inr ''id-1''))
       ''/data/a.txt'' ''manual'' \<and>
   ProcessChange demo_service
       (demo_world [''/data/a.txt'' \<mapsto> [1, 2, 3]] (\<lambda>p d n c. Inr ''id-1''))
       \<lparr>fc_Path = ''/data/a.txt'', fc_Operation = ''manual'', fc_Timestamp = 2, fc_Size = 3,
        fc_IsDir = False\<rparr> = demo_service"
  by (simp add: ProcessChange_def needsBackup_def calculateChecksum_def demo_service_def
        demo_world_def)

text \<open>
  C5. After a failed upload the state of the path should have status "failed" with its
  checksum kept. The path was backed up with checksum \<open>abc123\<close>; the file has changed
  and its upload fails. The recorded checksum is replaced by the checksum of the new
  content. A later event for the path is admitted by \<open>needsBackup\<close> because the status
  is "failed", but the worker finds the recorded checksum equal to the computed one and
  returns without uploading, although the upload would now succeed: the state stays as
  the failure left it.
\<close>

theorem failed_upload_overwrites_checksum:
  "backupState
     (processBackup demo_service
        (demo_world [''/data/a.txt'' \<mapsto> [120]] (\<lambda>p d n c. Inl ''status 503''))
        \<lparr>task_FilePath = ''/data/a.txt'', task_Operation = ''modify'', task_Timestamp = 2,
         task_Size = 1, task_IsDir = False\<rparr>) ''/data/a.txt''
     = Some \<lparr>LastBackup = 2, LastChecksum = ''#0'', BackupCount = 1, Status = ''failed''\<rparr> \<and>
   needsBackup
     (processBackup demo_service
        (demo_world [''/data/a.txt'' \<mapsto> [120]] (\<lambda>p d n c. Inl ''status 503''))
        \<lparr>task_FilePath = ''/data/a.txt'', task_Operation = ''modify'', task_Timestamp = 2,
         task_Size = 1, task_IsDir = False\<rparr>)
     (demo_world [''/data/a.txt'' \<mapsto> [120]] (\<lambda>p d n c. Inr ''id-1''))
     ''/data/a.txt'' ''chmod'' \<and>
   processBackup
     (processBackup demo_service
        (demo_world [''/data/a.txt'' \<mapsto> [120]] (\<lambda>p d n c. Inl ''status 503''))
        \<lparr>task_FilePath = ''/data/a.txt'', task_Operation = ''modify'', task_Timestamp = 2,
         task_Size = 1, task_IsDir = False\<rparr>)
     (demo_world [''/data/a.txt'' \<mapsto> [120]] (\<lambda>p d n c. Inr ''id-1''))
     \<lparr>task_FilePath = ''/data/a.txt'', task_Operation = ''chmod'', task_Timestamp = 3,
      task_Size = 1, task_IsDir = False\<rparr>
   = processBackup demo_service
        (demo_world [''/data/a.txt'' \<mapsto> [120]] (\<lambda>p d n c. Inl ''status 503''))
        \<lparr>task_FilePath = ''/data/a.txt'', task_Operation = ''modify'', task_Timestamp = 2,
         task_Size = 1, task_IsDir = False\<rparr>"
proof -
  define s1 where "s1 = processBackup demo_service
        (demo_world [''/data/a.txt'' \<mapsto> [120]] (\<lambda>p d n c. Inl ''status 503''))
        \<lparr>task_FilePath = ''/data/a.txt'', task_Operation = ''modify'', task_Timestamp = 2,
         task_Size = 1, task_IsDir = False\<rparr>"
  have st: "backupState s1 ''/data/a.txt''
      = Some \<lparr>LastBackup = 2, LastChecksum = ''#0'', BackupCount = 1, Status = ''failed''\<rparr>"
    by (simp add: s1_def processBackup_def calculateChecksum_def updateBackupState_def
          AddResult_def demo_service_def demo_world_def Let_def)
  have nb: "needsBackup s1
      (demo_world [''/data/a.txt'' \<mapsto> [120]] (\<lambda>p d n c. Inr ''id-1''))
      ''/data/a.txt'' ''chmod''"
    by (simp add: needsBackup_def st demo_world_def)
  have skip: "processBackup s1
      (demo_world [''/data/a.txt'' \<mapsto> [120]] (\<lambda>p d n c. Inr ''id-1''))
      \<lparr>task_FilePath = ''/data/a.txt'', task_Operation = ''chmod'', task_Timestamp = 3,
       task_Size = 1, task_IsDir = False\<rparr> = s1"
    by (simp add: processBackup_def calculateChecksum_def st Let_def demo_world_def)
  show ?thesis using st nb skip unfolding s1_def by simp
qed


text \<open>
  C6. Decrypting a container succeeds exactly when the end of the input falls on a frame
  boundary after the salt and the nonce base. For a container written by \<open>EncryptFile\<close>
  and cut after its first \<open>k\<close> bytes, \<open>DecryptFile\<close> under the same password returns no
  error if and only if \<open>k\<close> is the header length plus the length of the first \<open>j\<close> whole
  frames, for some \<open>j\<close>; a cut anywhere else (inside the header, inside a length prefix
  or inside a ciphertext) returns an error.
\<close>

theorem truncated_container:
  assumes "\<forall>n p. gcm_Open (NewGCM lib (pbkdf2_Key lib pw salt)) n
                  (gcm_Seal (NewGCM lib (pbkdf2_Key lib pw salt)) n p) = Some p"
    and "\<forall>n p. length p \<le> 4096 \<longrightarrow>
                length (gcm_Seal (NewGCM lib (pbkdf2_Key lib pw salt)) n p) < 2 ^ 32"
    and "length salt = SaltSize" and "length nonce = NonceSize"
    and "k \<le> length (EncryptFile lib pw salt nonce x)"
  shows "fst (DecryptFile lib pw (take k (EncryptFile lib pw salt nonce x))) = None \<longleftrightarrow>
         (\<exists>j \<le> length (encrypt_frames (NewGCM lib (pbkdf2_Key lib pw salt)) nonce x).
            k = SaltSize + NonceSize +
                length (concat (take j
                  (encrypt_frames (NewGCM lib (pbkdf2_Key lib pw salt)) nonce x))))"
proof -
  define g where "g = NewGCM lib (pbkdf2_Key lib pw salt)"
  define fs where "fs = encrypt_frames g nonce x"
  have E: "EncryptFile lib pw salt nonce x = salt @ nonce @ concat fs"
    by (simp add: EncryptFile_frames g_def fs_def)
  have ls: "length salt = 32" "length nonce = 12"
    using assms(3,4) by (simp_all add: SaltSize_def NonceSize_def)
  consider "k < 32" | "32 \<le> k" "k < 44" | "44 \<le> k" by linarith
  then have "fst (DecryptFile lib pw (take k (salt @ nonce @ concat fs))) = None \<longleftrightarrow>
         (\<exists>j \<le> length fs. k = 32 + 12 + length (concat (take j fs)))"
  proof cases
    case 1
    then show ?thesis using ls by (simp add: DecryptFile_def SaltSize_def)
  next
    case 2
    then show ?thesis using ls
      by (auto simp add: DecryptFile_def SaltSize_def NonceSize_def Let_def)
  next
    case 3
    have k': "k - 44 \<le> length (concat fs)" using assms(5) ls 3 by (simp add: E)
    have "DecryptFile lib pw (take k (salt @ nonce @ concat fs)) =
          decrypt_chunks g nonce (take (k - 44) (concat fs)) []"
      using ls 3 by (simp add: DecryptFile_def SaltSize_def NonceSize_def Let_def g_def)
    moreover have "fst (decrypt_chunks g nonce (take (k - 44) (concat fs)) []) = None \<longleftrightarrow>
        (\<exists>j \<le> length fs. k - 44 = length (concat (take j fs)))"
      unfolding fs_def
      by (rule decrypt_truncated) (use assms(1,2) k' in \<open>simp_all add: g_def fs_def\<close>)
    ultimately show ?thesis using 3 by auto
  qed
  then show ?thesis
    by (simp add: E g_def fs_def SaltSize_def NonceSize_def)
qed

text \<open>
  A one-frame container of 65 bytes: cut at byte 44 (after the header) it decrypts without
  error, cut at byte 46 (inside the length prefix) it is rejected.
\<close>

theorem truncated_container_witness:
  "fst (DecryptFile toy_crypto ''pw'' (take 44
      (EncryptFile toy_crypto ''pw'' (replicate 32 7) (replicate 12 255) [1, 2, 3]))) = None \<and>
   fst (DecryptFile toy_crypto ''pw'' (take 46
      (EncryptFile toy_crypto ''pw'' (replicate 32 7) (replicate 12 255) [1, 2, 3]))) \<noteq> None"
proof -
  have h1: "\<forall>n p. gcm_Open (NewGCM toy_crypto (pbkdf2_Key toy_crypto ''pw'' (replicate 32 7))) n
      (gcm_Seal (NewGCM toy_crypto (pbkdf2_Key toy_crypto ''pw'' (replicate 32 7))) n p) = Some p"
    by (simp add: toy_NewGCM toy_open_seal)
  have h2: "\<forall>n p. length p \<le> 4096 \<longrightarrow>
      length (gcm_Seal (NewGCM toy_crypto (pbkdf2_Key toy_crypto ''pw'' (replicate 32 7))) n p)
        < 2 ^ 32"
    using toy_seal_length[of "pbkdf2_Key toy_crypto ''pw'' (replicate 32 7)"]
    by (simp add: toy_NewGCM toy_key_length)
  have h3: "length (replicate 32 (7::byte)) = SaltSize" by (simp add: SaltSize_def)
  have h4: "length (replicate 12 (255::byte)) = NonceSize" by (simp add: NonceSize_def)
  have fr: "encrypt_frames (NewGCM toy_crypto (pbkdf2_Key toy_crypto ''pw'' (replicate 32 7)))
      (replicate 12 255) [1, 2, 3] = [[0, 0, 0, 17, 112, 119] @ replicate 12 255 @ [1, 2, 3]]"
    by (simp add: encrypt_frames.simps sealed_frame_def toy_crypto_def toy_gcm_def
          chunkSizeBytes_def)
  have len: "length (EncryptFile toy_crypto ''pw'' (replicate 32 7) (replicate 12 255) [1, 2, 3])
      = 65"
    by (simp add: EncryptFile_frames fr)
  have k1: "44 \<le> length (EncryptFile toy_crypto ''pw'' (replicate 32 7) (replicate 12 255) [1, 2, 3])"
    and k2: "46 \<le> length (EncryptFile toy_crypto ''pw'' (replicate 32 7) (replicate 12 255) [1, 2, 3])"
    by (simp_all add: len)
  have a: "fst (DecryptFile toy_crypto ''pw'' (take 44
      (EncryptFile toy_crypto ''pw'' (replicate 32 7) (replicate 12 255) [1, 2, 3]))) = None"
    unfolding truncated_container[OF h1 h2 h3 h4 k1] fr
    by (intro exI[of _ 0]) (simp add: SaltSize_def NonceSize_def)
  have b: "fst (DecryptFile toy_crypto ''pw'' (take 46
      (EncryptFile toy_crypto ''pw'' (replicate 32 7) (replicate 12 255) [1, 2, 3]))) \<noteq> None"
    unfolding truncated_container[OF h1 h2 h3 h4 k2] fr
  proof (rule notI, elim exE conjE)
    fix j :: nat
    assume j: "j \<le> length [[0, 0, 0, 17, 112, 119] @ replicate 12 (255::byte) @ [1, 2, 3]]"
      and eq: "46 = SaltSize + NonceSize +
        length (concat (take j [[0, 0, 0, 17, 112, 119] @ replicate 12 (255::byte) @ [1, 2, 3]]))"
    from j have "j = 0 \<or> j = 1" by auto
    then show False using eq by (auto simp add: SaltSize_def NonceSize_def)
  qed
  show ?thesis using a b by simp
qed





text \<open>
  C8. Within one container the chunk with index \<open>i\<close> (from 0) is sealed with the nonce
  obtained from the nonce base by \<open>i\<close> calls of \<open>incrementNonce\<close>; read as a big-endian
  number this nonce is the base plus \<open>i\<close> modulo \<open>2 ^ 96\<close>, so each chunk's nonce is the
  previous one plus 1 (modulo \<open>2 ^ 96\<close>, the carry running through all twelve bytes), and
  two chunks with different indices below \<open>2 ^ 96\<close> never get the same nonce.
\<close>

theorem nonce_counter:
  assumes "length nonce = NonceSize"
  shows "EncryptFile lib pw salt nonce inp =
           salt @ nonce @ concat (map
             (\<lambda>i. sealed_frame (NewGCM lib (pbkdf2_Key lib pw salt))
                    ((incrementNonce ^^ i) nonce) (take 4096 (drop (4096 * i) inp)))
             [0..<chunk_count inp]) \<and>
         (\<forall>i. be_val ((incrementNonce ^^ i) nonce) = (be_val nonce + i) mod 2 ^ 96) \<and>
         (\<forall>i j. i < j \<and> j < 2 ^ 96 \<longrightarrow>
                (incrementNonce ^^ i) nonce \<noteq> (incrementNonce ^^ j) nonce)"
proof -
  have p: "(256::nat) ^ length nonce = 2 ^ 96"
    using assms by (simp add: NonceSize_def)
  have "\<forall>i. be_val ((incrementNonce ^^ i) nonce) = (be_val nonce + i) mod 2 ^ 96"
    using be_val_funpow[of _ nonce] by (simp only: p) simp
  moreover have "\<forall>i j. i < j \<and> j < 2 ^ 96 \<longrightarrow>
      (incrementNonce ^^ i) nonce \<noteq> (incrementNonce ^^ j) nonce"
    using nonce_distinct[of _ _ nonce] by (simp only: p) blast
  ultimately show ?thesis
    by (simp only: EncryptFile_frames encrypt_frames_closed) simp
qed

text \<open>
  A nonce base ending in two bytes 255: the increment carries into the third byte from
  the end.
\<close>

theorem nonce_counter_witness:
  "length [0, 0, 0, 0, 0, 0, 0, 0, 0, 0, 255, 255 :: byte] = NonceSize \<and>
   incrementNonce [0, 0, 0, 0, 0, 0, 0, 0, 0, 0, 255, 255] =
     [0, 0, 0, 0, 0, 0, 0, 0, 0, 1, 0, 0] \<and>
   be_val ((incrementNonce ^^ 1) [0, 0, 0, 0, 0, 0, 0, 0, 0, 0, 255, 255]) =
     (be_val [0, 0, 0, 0, 0, 0, 0, 0, 0, 0, 255, 255] + 1) mod 2 ^ 96 \<and>
   (incrementNonce ^^ 0) [0, 0, 0, 0, 0, 0, 0, 0, 0, 0, 255, 255 :: byte] \<noteq>
     (incrementNonce ^^ 1) [0, 0, 0, 0, 0, 0, 0, 0, 0, 0, 255, 255]"
proof -
  have h: "length [0, 0, 0, 0, 0, 0, 0, 0, 0, 0, 255, 255 :: byte] = NonceSize"
    by (simp add: NonceSize_def)
  have e: "incrementNonce [0, 0, 0, 0, 0, 0, 0, 0, 0, 0, 255, 255] =
      [0, 0, 0, 0, 0, 0, 0, 0, 0, 1, 0, 0]"
    by (simp add: incrementNonce_def Let_def)
  have lt: "(0::nat) < 1 \<and> (1::nat) < 2 ^ 96" by simp
  show ?thesis
    using h e lt nonce_counter[OF h, of toy_crypto "''pw''" "[]" "[]"] by blast
qed

text \<open>
  C9. Every network operation of the client, upload and download alike, should retry a
  request that met a connection failure or a 5xx response, up to the configured number
  of attempts. With three retries configured and a transport whose first request fails
  with a connection error, the upload fails after its single request and without a
  pause, while the download of the same client pauses one second, sends its request
  again and succeeds.
\<close>

theorem upload_not_retried:
  "Client_UploadFile demo_client flaky_transport (\<lambda>body. Some ''id-1'') ''/data/a.txt'' [120] 1
     ''2d711642b726b04401627ca9fbac32f5c8530fb1903cc4db02258717921a4881'' no_requests
   = (Inl (ExecuteFailed ''connection reset''),
      \<lparr>requests = [(''POST'', ''https://api/api/clients/v1/files'')], sleeps = []\<rparr>) \<and>
   Client_DownloadFile demo_client flaky_transport ''id-1'' no_requests
   = (Inr ''body'',
      \<lparr>requests = [(''GET'', ''https://api/api/clients/v1/files/id-1''),
                   (''GET'', ''https://api/api/clients/v1/files/id-1'')],
       sleeps = [1]\<rparr>)"
  by (simp add: Client_UploadFile_def Client_DownloadFile_def doRequest_def
        doRequest_loop.simps send_def demo_client_def flaky_transport_def no_requests_def)

text \<open>
  C10. Restoring a manifest entry that is not skipped, when the download, the creation
  of the directory and the write succeed, leaves at the target path a file whose bytes
  are exactly the bytes received from the download; and the result of \<open>restoreFile\<close>
  does not depend on the \<open>Compressed\<close> flag of the entry. No codec and no cipher is a
  parameter of \<open>restoreFile\<close>: nothing is decompressed or decrypted.
\<close>

theorem restore_writes_downloaded_bytes:
  assumes "\<not> fileExists (disk r) (Join w targetDir (Base w (me_FilePath entry)))
               (me_Checksum entry)"
    and "DownloadFile_result w (me_FileID entry) = Inr fileData"
    and "MkdirAll_error w (Dir w (Join w targetDir (Base w (me_FilePath entry)))) = None"
    and "WriteFile_error w (Join w targetDir (Base w (me_FilePath entry))) = None"
  shows "(\<exists>mode. disk (restoreFile r w entry targetDir)
                    (Join w targetDir (Base w (me_FilePath entry)))
                  = Some (RegularFile fileData mode)) \<and>
         (\<forall>compressed. restoreFile r w (entry\<lparr>me_Compressed := compressed\<rparr>) targetDir
                        = restoreFile r w entry targetDir)"
proof -
  have "\<exists>mode. disk (restoreFile r w entry targetDir)
                    (Join w targetDir (Base w (me_FilePath entry)))
                  = Some (RegularFile fileData mode)"
    using assms
    by (auto simp add: restoreFile_def Let_def downloadFile_def updateProgress_def
          WriteFile_def split: option.splits node.splits)
  moreover have "\<forall>compressed. restoreFile r w (entry\<lparr>me_Compressed := compressed\<rparr>) targetDir
                        = restoreFile r w entry targetDir"
    by (simp add: restoreFile_def Let_def split: prod.splits sum.splits option.splits)
  ultimately show ?thesis by simp
qed

text \<open>
  An entry marked as compressed whose download starts with the gzip magic bytes: these
  bytes are what the target file holds.
\<close>

theorem restore_writes_downloaded_bytes_witness:
  "(\<exists>mode. disk (restoreFile (demo_restore Map.empty)
                   (demo_restore_world (\<lambda>fileID. Inr [31, 139, 8]))
                   (demo_entry ''abc'' True) ''/restore'') ''/restore/a.txt''
            = Some (RegularFile [31, 139, 8] mode)) \<and>
   (\<forall>compressed.
        restoreFile (demo_restore Map.empty) (demo_restore_world (\<lambda>fileID. Inr [31, 139, 8]))
          ((demo_entry ''abc'' True)\<lparr>me_Compressed := compressed\<rparr>) ''/restore''
      = restoreFile (demo_restore Map.empty) (demo_restore_world (\<lambda>fileID. Inr [31, 139, 8]))
          (demo_entry ''abc'' True) ''/restore'')"
proof -
  define w where "w = demo_restore_world (\<lambda>fileID. Inr [31, 139, 8])"
  define r where "r = demo_restore Map.empty"
  define e where "e = demo_entry ''abc'' True"
  have p: "Join w ''/restore'' (Base w (me_FilePath e)) = ''/restore/a.txt''"
    using demo_target_path by (simp add: w_def e_def demo_entry_def)
  have h1: "\<not> fileExists (disk r) (Join w ''/restore'' (Base w (me_FilePath e)))
               (me_Checksum e)"
    by (simp add: p fileExists_def r_def demo_restore_def)
  have h2: "DownloadFile_result w (me_FileID e) = Inr [31, 139, 8]"
    by (simp add: w_def demo_restore_world_def)
  have h3: "MkdirAll_error w (Dir w (Join w ''/restore'' (Base w (me_FilePath e)))) = None"
    by (simp add: w_def demo_restore_world_def)
  have h4: "WriteFile_error w (Join w ''/restore'' (Base w (me_FilePath e))) = None"
    by (simp add: w_def demo_restore_world_def)
  show ?thesis
    using restore_writes_downloaded_bytes[OF h1 h2 h3 h4, unfolded p]
    unfolding r_def w_def e_def .
qed



end
